theory Spec2Isabelle
  imports Main "HOL-Library.Word"
begin

section \<open>Bus arrival collector: data model\<close>

text \<open>
  A shallow embedding of package \<open>collector\<close> (the bus-state tracker, the station
  worker loop and the configuration supervisor) together with the model structs it reads
  and writes.

  Instants of Go's \<open>time.Time\<close> are integers: nanoseconds counted from the zero
  \<open>Time\<close>, so that \<open>IsZero\<close> is equality with 0. A \<open>time.Duration\<close> is a
  signed 64-bit count of nanoseconds and \<open>Time.Sub\<close> saturates at its two ends;
  the saturation is written out in \<open>Sub\<close>.

  Go's \<open>int\<close> has 64 bits on the platforms the application is built for. Seat
  counts and ordinals are only copied and compared, so they are the integers they
  denote; \<open>RetryCount\<close>, the one field that is counted up, is a 64-bit word whose
  \<open>+ 1\<close> wraps.
\<close>

type_synonym time = int
type_synonym duration = int

definition Second :: duration where
  "Second = 1000000000"

definition Minute :: duration where
  "Minute = 60 * Second"

definition Hour :: duration where
  "Hour = 60 * Minute"

definition minDuration :: duration where
  "minDuration = - (2 ^ 63)"

definition maxDuration :: duration where
  "maxDuration = 2 ^ 63 - 1"

definition Sub :: "time \<Rightarrow> time \<Rightarrow> duration" where
  "Sub t u = (let d = t - u in
     if d < minDuration then minDuration
     else if maxDuration < d then maxDuration
     else d)"

definition IsZero :: "time \<Rightarrow> bool" where
  "IsZero t = (t = 0)"

datatype error = Error string

text \<open>\<open>model.RouteConfig\<close>: the key \<open>ID\<close> is an \<open>int64\<close>.\<close>

record RouteConfig =
  ID :: "64 word"
  RouteID :: string
  RouteName :: string
  StationID :: string
  StationName :: string
  Direction :: string
  StaOrder :: int
  IsActive :: bool

text \<open>\<open>model.BusArrivalInfo\<close>, one vehicle of the arrival snapshot (the fields the
  collector reads).\<close>

record BusArrivalInfo =
  PlateNo :: string
  RemainSeatCnt :: int
  LocationNo1 :: int

text \<open>\<open>model.BusLocation\<close>, one vehicle of the location feed.\<close>

record BusLocation =
  PlateNo :: string
  StationSeq :: int
  RemainSeatCnt :: int

text \<open>\<open>model.BusArrival\<close>, the record handed to \<open>busRepo.Create\<close>; the two seat
  counts are \<open>*int\<close> in the source, \<open>None\<close> is the nil pointer.\<close>

record BusArrival =
  RouteConfigID :: "64 word"
  BusNumber :: string
  ArrivalTime :: time
  SeatsBefore :: "int option"
  SeatsAfter :: "int option"

text \<open>\<open>BusState\<close>, the tracking entry of one plate.\<close>

record BusState =
  PlateNo :: string
  FirstSeenAt :: time
  LastSeenAt :: time
  SeatsBefore :: int
  LocationNo :: int
  Recorded :: bool
  PendingArrivalID :: "64 word"
  PassedAt :: time
  RetryCount :: "64 word"

section \<open>The collector and its external calls\<close>

text \<open>A \<open>context.Context\<close>: the parent handed to \<open>Start\<close>, or the child made
  by \<open>context.WithCancel\<close>. A \<open>context.CancelFunc\<close> is identified with the
  context it cancels.\<close>

datatype ctx = Background | WithCancel ctx

text \<open>\<open>configCollector\<close>: the configuration a worker runs for. Its \<open>stopChan\<close>
  is made with the entry and closed when the entry is deleted, so the channel is
  identified with the entry's key in \<open>collectors\<close>.\<close>

record configCollector =
  cfg :: RouteConfig

text \<open>\<open>Collector\<close>. The repositories and API clients are external: what a call to
  them returned is an argument of the function that makes the call. The wait group
  counts live worker goroutines and is changed by them; it is not part of the
  sequential state.\<close>

record Collector =
  intervalMs :: int
  collectors :: "64 word \<rightharpoonup> configCollector"
  mainCtx :: "ctx option"
  mainCancel :: "ctx option"
  startHour :: int
  endHour :: int

text \<open>What the external calls of one \<open>collectData\<close> cycle returned:
  \<open>time.Now()\<close>, \<open>apiClient.GetRouteArrivalList\<close>, \<open>gbisClient.GetBusLocations\<close>
  (called once for every plate whose passage is being confirmed, hence indexed by the
  plate) and \<open>busRepo.Create\<close> (\<open>None\<close> is the nil error; a cycle calls it at
  most once per plate and the records of two plates differ, hence indexed by the
  record). Log output is not modelled.\<close>

record tick_env =
  timeNow :: time
  GetRouteArrivalList :: "error + BusArrivalInfo list"
  GetBusLocations :: "string \<Rightarrow> error + BusLocation list"
  Create :: "BusArrival \<Rightarrow> error option"

section \<open>Time-window gate\<close>

text \<open>\<open>isWithinTimeWindow\<close>; the second argument is \<open>time.Now().Hour()\<close>.\<close>

definition isWithinTimeWindow :: "Collector \<Rightarrow> int \<Rightarrow> bool" where
  "isWithinTimeWindow c hour =
     (if startHour c = 0 \<and> endHour c = 0 then True
      else if startHour c < endHour c then startHour c \<le> hour \<and> hour < endHour c
      else if endHour c < startHour c then startHour c \<le> hour \<or> hour < endHour c
      else hour = startHour c)"

section \<open>Confirmation lookup\<close>

text \<open>The scan of \<open>getSeatsAfterFromBusLocation\<close> over the returned locations: the
  first location with the plate decides.\<close>

fun scanLocations :: "BusLocation list \<Rightarrow> string \<Rightarrow> int option" where
  "scanLocations [] plateNo = None"
| "scanLocations (loc # locations) plateNo =
     (if BusLocation.PlateNo loc = plateNo then
        (if BusLocation.RemainSeatCnt loc < 0 then None
         else Some (BusLocation.RemainSeatCnt loc))
      else scanLocations locations plateNo)"

text \<open>\<open>getSeatsAfterFromBusLocation\<close>; the first argument is what
  \<open>gbisClient.GetBusLocations(routeID)\<close> returned.\<close>

definition getSeatsAfterFromBusLocation ::
  "error + BusLocation list \<Rightarrow> string \<Rightarrow> int option" where
  "getSeatsAfterFromBusLocation fetched plateNo =
     (case fetched of
        Inl err \<Rightarrow> None
      | Inr locations \<Rightarrow> scanLocations locations plateNo)"

section \<open>Bus state tracker\<close>

type_synonym busStates = "string \<rightharpoonup> BusState"

text \<open>The \<open>Create\<close> calls of one cycle and what each returned, by the plate (the
  key of \<open>busStates\<close>) they were made for. The body of the second loop makes at most
  one call per key.\<close>

type_synonym creates = "string \<rightharpoonup> BusArrival \<times> error option"

text \<open>Body of the first loop of \<open>collectData\<close>: one arrival of the snapshot. The
  pair is \<open>busStates\<close> and \<open>currentBuses\<close>.\<close>

fun trackArrival ::
  "time \<Rightarrow> BusArrivalInfo \<Rightarrow> busStates \<times> (string \<Rightarrow> bool) \<Rightarrow> busStates \<times> (string \<Rightarrow> bool)" where
  "trackArrival now arrival (busStates, currentBuses) =
     (if BusArrivalInfo.PlateNo arrival = [] then (busStates, currentBuses)
      else
        (case busStates (BusArrivalInfo.PlateNo arrival) of
           None \<Rightarrow>
             (busStates(BusArrivalInfo.PlateNo arrival \<mapsto>
                \<lparr>PlateNo = BusArrivalInfo.PlateNo arrival,
                 FirstSeenAt = now,
                 LastSeenAt = now,
                 SeatsBefore = BusArrivalInfo.RemainSeatCnt arrival,
                 LocationNo = LocationNo1 arrival,
                 Recorded = False,
                 PendingArrivalID = 0,
                 PassedAt = 0,
                 RetryCount = 0\<rparr>),
              currentBuses(BusArrivalInfo.PlateNo arrival := True))
         | Some state \<Rightarrow>
             (busStates(BusArrivalInfo.PlateNo arrival \<mapsto>
                (if LocationNo1 arrival < LocationNo state
                 then state\<lparr>LastSeenAt := now,
                        SeatsBefore := BusArrivalInfo.RemainSeatCnt arrival,
                        LocationNo := LocationNo1 arrival\<rparr>
                 else state\<lparr>LastSeenAt := now\<rparr>)),
              currentBuses(BusArrivalInfo.PlateNo arrival := True))))"

fun trackArrivals ::
  "time \<Rightarrow> BusArrivalInfo list \<Rightarrow> busStates \<times> (string \<Rightarrow> bool) \<Rightarrow> busStates \<times> (string \<Rightarrow> bool)" where
  "trackArrivals now [] acc = acc"
| "trackArrivals now (arrival # arrivals) acc =
     trackArrivals now arrivals (trackArrival now arrival acc)"

text \<open>Body of the second loop for a tracked plate that is not in the snapshot, up to
  the ten-minute removal: the entry as the body leaves it, and the \<open>Create\<close> call it
  made, if any.\<close>

definition recordPassage ::
  "RouteConfig \<Rightarrow> tick_env \<Rightarrow> string \<Rightarrow> BusState \<Rightarrow> BusState \<times> (BusArrival \<times> error option) option" where
  "recordPassage config env plateNo state =
     (if Recorded state then (state, None)
      else
        (let now = timeNow env;
             state1 = (if IsZero (PassedAt state) then state\<lparr>PassedAt := now\<rparr> else state);
             seatsAfter = getSeatsAfterFromBusLocation (GetBusLocations env plateNo) plateNo
         in
           (case seatsAfter of
              Some seats \<Rightarrow>
                (let busArrival =
                       \<lparr>RouteConfigID = ID config,
                        BusNumber = plateNo,
                        ArrivalTime = LastSeenAt state1,
                        SeatsBefore = Some (SeatsBefore state1),
                        SeatsAfter = Some seats\<rparr>
                 in (case Create env busArrival of
                       Some err \<Rightarrow> (state1, Some (busArrival, Some err))
                     | None \<Rightarrow> (state1\<lparr>Recorded := True\<rparr>, Some (busArrival, None))))
            | None \<Rightarrow>
                (let state2 = state1\<lparr>RetryCount := RetryCount state1 + 1\<rparr>;
                     timeSincePassed = Sub now (PassedAt state2)
                 in
                   if timeSincePassed < 2 * Minute then (state2, None)
                   else
                     (let busArrival =
                            \<lparr>RouteConfigID = ID config,
                             BusNumber = plateNo,
                             ArrivalTime = LastSeenAt state2,
                             SeatsBefore = Some (SeatsBefore state2),
                             SeatsAfter = None\<rparr>
                      in (case Create env busArrival of
                            Some err \<Rightarrow> (state2, Some (busArrival, Some err))
                          | None \<Rightarrow> (state2\<lparr>Recorded := True\<rparr>, Some (busArrival, None))))))))"

text \<open>The second loop: every key of \<open>busStates\<close> that is not in
  \<open>currentBuses\<close> runs the body above and is deleted when it was last seen more
  than ten minutes ago. Each iteration reads and writes its own entry only, so the
  loop is the same for every iteration order of the map.\<close>

definition checkPassed ::
  "RouteConfig \<Rightarrow> tick_env \<Rightarrow> (string \<Rightarrow> bool) \<Rightarrow> busStates \<Rightarrow> busStates \<times> creates" where
  "checkPassed config env currentBuses busStates =
     ((\<lambda>plateNo.
         case busStates plateNo of
           None \<Rightarrow> None
         | Some state \<Rightarrow>
             if currentBuses plateNo then Some state
             else
               (let state' = fst (recordPassage config env plateNo state) in
                  if 10 * Minute < Sub (timeNow env) (LastSeenAt state') then None
                  else Some state')),
      (\<lambda>plateNo.
         case busStates plateNo of
           None \<Rightarrow> None
         | Some state \<Rightarrow>
             if currentBuses plateNo then None
             else snd (recordPassage config env plateNo state)))"

text \<open>The third loop: entries first seen more than one hour ago are deleted.\<close>

definition cleanupOld :: "time \<Rightarrow> busStates \<Rightarrow> busStates" where
  "cleanupOld now busStates =
     (\<lambda>plateNo.
        case busStates plateNo of
          None \<Rightarrow> None
        | Some state \<Rightarrow> if 1 * Hour < Sub now (FirstSeenAt state) then None else Some state)"

text \<open>\<open>collectData\<close>: one collection cycle. Returns the tracking map as the cycle
  leaves it and the \<open>Create\<close> calls the cycle made.\<close>

definition collectData :: "RouteConfig \<Rightarrow> tick_env \<Rightarrow> busStates \<Rightarrow> busStates \<times> creates" where
  "collectData config env busStates =
     (case GetRouteArrivalList env of
        Inl err \<Rightarrow> (busStates, Map.empty)
      | Inr arrivals \<Rightarrow>
          (let now = timeNow env;
               tracked = trackArrivals now arrivals (busStates, \<lambda>plateNo. False);
               passed = checkPassed config env (snd tracked) (fst tracked)
           in (cleanupOld now (fst passed), snd passed)))"

section \<open>Station worker\<close>

text \<open>What the \<open>select\<close> of \<open>collectForConfig\<close> receives: the main context is
  done, the stop channel is closed, or the ticker fires; a tick carries the hour read
  by the gate and the results of the cycle's external calls.\<close>

datatype event = MainCtxDone | StopChan | TickerC int tick_env

datatype worker_status = Waiting | Returned

text \<open>\<open>collectForConfig\<close> over the events its \<open>select\<close> receives, starting
  from the tracking map \<open>busStates\<close> (empty when the goroutine starts). It returns
  whether the goroutine has returned or waits in \<open>select\<close> for the next event, the
  tracking map, and the \<open>Create\<close> calls of every cycle it ran, in order.\<close>

fun collectForConfig ::
  "Collector \<Rightarrow> configCollector \<Rightarrow> event list \<Rightarrow> busStates \<Rightarrow> worker_status \<times> busStates \<times> creates list" where
  "collectForConfig c cc [] busStates = (Waiting, busStates, [])"
| "collectForConfig c cc (MainCtxDone # events) busStates = (Returned, busStates, [])"
| "collectForConfig c cc (StopChan # events) busStates = (Returned, busStates, [])"
| "collectForConfig c cc (TickerC hour env # events) busStates =
     (if isWithinTimeWindow c hour then
        (let cycle = collectData (cfg cc) env busStates;
             rest = collectForConfig c cc events (fst cycle)
         in (fst rest, fst (snd rest), snd cycle # snd (snd rest)))
      else collectForConfig c cc events busStates)"

section \<open>Configuration supervisor\<close>

text \<open>\<open>NewCollector\<close>: no context, no cancel function, an empty worker map.\<close>

definition NewCollector :: "int \<Rightarrow> int \<Rightarrow> int \<Rightarrow> Collector" where
  "NewCollector interval start finish =
     \<lparr>intervalMs = interval,
      collectors = Map.empty,
      mainCtx = None,
      mainCancel = None,
      startHour = start,
      endHour = finish\<rparr>"

definition IsRunning :: "Collector \<Rightarrow> bool" where
  "IsRunning c = (mainCancel c \<noteq> None)"

text \<open>The set \<open>activeIDs\<close> built by the first loop of \<open>syncConfigs\<close>.\<close>

fun activeIDs :: "RouteConfig list \<Rightarrow> (64 word \<Rightarrow> bool) \<Rightarrow> (64 word \<Rightarrow> bool)" where
  "activeIDs [] acc = acc"
| "activeIDs (config # configs) acc = activeIDs configs (acc(ID config := True))"

text \<open>The last loop of \<open>syncConfigs\<close>: a collector is made, stored and its
  goroutine started for every configuration whose ID has no entry yet. Returns the map
  and the configurations a worker was started for, in order.\<close>

fun startNew ::
  "RouteConfig list \<Rightarrow> (64 word \<rightharpoonup> configCollector) \<Rightarrow> (64 word \<rightharpoonup> configCollector) \<times> RouteConfig list" where
  "startNew [] running = (running, [])"
| "startNew (config # configs) running =
     (if running (ID config) = None then
        (let rest = startNew configs (running(ID config \<mapsto> \<lparr>cfg = config\<rparr>))
         in (fst rest, config # snd rest))
      else startNew configs running)"

text \<open>What one \<open>syncConfigs\<close> did to workers: the keys whose stop channel it
  closed, and the configurations it started a worker for.\<close>

record sync_actions =
  stopped :: "64 word \<Rightarrow> bool"
  started :: "RouteConfig list"

text \<open>\<open>syncConfigs\<close>; the first argument is what \<open>configRepo.FindActive()\<close>
  returned. The middle loop closes and deletes every entry whose key is not active;
  each iteration touches its own entry only.\<close>

definition syncConfigs :: "error + RouteConfig list \<Rightarrow> Collector \<Rightarrow> Collector \<times> sync_actions" where
  "syncConfigs found c =
     (case found of
        Inl err \<Rightarrow> (c, \<lparr>stopped = (\<lambda>k. False), started = []\<rparr>)
      | Inr configs \<Rightarrow>
          (let active = activeIDs configs (\<lambda>k. False);
               stops = (\<lambda>k. collectors c k \<noteq> None \<and> \<not> active k);
               kept = (\<lambda>k. if stops k then None else collectors c k);
               new = startNew configs kept
           in (c\<lparr>collectors := fst new\<rparr>, \<lparr>stopped = stops, started = snd new\<rparr>)))"

text \<open>\<open>Start\<close>: the cancellable child context is stored and the configurations are
  loaded once. (The goroutine that calls \<open>syncConfigs\<close> again every 30 seconds is a
  later call of \<open>syncConfigs\<close>.)\<close>

definition Start :: "ctx \<Rightarrow> error + RouteConfig list \<Rightarrow> Collector \<Rightarrow> Collector \<times> sync_actions" where
  "Start parent found c =
     syncConfigs found (c\<lparr>mainCtx := Some (WithCancel parent), mainCancel := Some (WithCancel parent)\<rparr>)"

text \<open>What a \<open>Stop\<close> that got past its guard did: the context it cancelled and
  the keys whose stop channel it closed; it then waited for the wait group.\<close>

record stop_actions =
  cancelled :: ctx
  closed :: "64 word \<Rightarrow> bool"

text \<open>\<open>Stop\<close>: the collector as the call leaves it when it returns, and what it
  did (\<open>None\<close>: it returned at the guard).\<close>

definition Stop :: "Collector \<Rightarrow> Collector \<times> stop_actions option" where
  "Stop c =
     (case mainCancel c of
        None \<Rightarrow> (c, None)
      | Some cancel \<Rightarrow>
          (c\<lparr>collectors := Map.empty, mainCtx := None, mainCancel := None\<rparr>,
           Some \<lparr>cancelled = cancel, closed = (\<lambda>k. collectors c k \<noteq> None)\<rparr>))"

section \<open>Consecutive cycles\<close>

text \<open>The tracking map after the worker has run \<open>collectData\<close> once for each
  element of a list of call results, in order.\<close>

fun cycles :: "RouteConfig \<Rightarrow> tick_env list \<Rightarrow> busStates \<Rightarrow> busStates" where
  "cycles config [] busStates = busStates"
| "cycles config (env # envs) busStates = cycles config envs (fst (collectData config env busStates))"

text \<open>The \<open>Create\<close> calls made, over consecutive cycles, for the entry that
  \<open>busStates\<close> holds under \<open>plateNo\<close>: the calls stop with the cycle that deletes
  the entry (an entry made later under the same plate is another entry).\<close>

fun entryCreates ::
  "RouteConfig \<Rightarrow> string \<Rightarrow> tick_env list \<Rightarrow> busStates \<Rightarrow> (BusArrival \<times> error option) list" where
  "entryCreates config plateNo [] busStates = []"
| "entryCreates config plateNo (env # envs) busStates =
     (case busStates plateNo of
        None \<Rightarrow> []
      | Some state \<Rightarrow>
          (case snd (collectData config env busStates) plateNo of
             None \<Rightarrow> []
           | Some call \<Rightarrow> [call])
          @ entryCreates config plateNo envs (fst (collectData config env busStates)))"

text \<open>The snapshot of a cycle was fetched and does not list the plate.\<close>

definition absentFrom :: "string \<Rightarrow> tick_env \<Rightarrow> bool" where
  "absentFrom plateNo env =
     (case GetRouteArrivalList env of
        Inl err \<Rightarrow> False
      | Inr arrivals \<Rightarrow> plateNo \<notin> BusArrivalInfo.PlateNo ` set arrivals)"

section \<open>Example data\<close>

text \<open>Concrete inputs at which the properties below are evaluated.\<close>

definition loc_A1_unavailable :: BusLocation where
  "loc_A1_unavailable = \<lparr>BusLocation.PlateNo = ''A1'', StationSeq = 7, RemainSeatCnt = - 1\<rparr>"

definition loc_A1_empty :: BusLocation where
  "loc_A1_empty = \<lparr>BusLocation.PlateNo = ''A1'', StationSeq = 8, RemainSeatCnt = 0\<rparr>"

definition loc_B2 :: BusLocation where
  "loc_B2 = \<lparr>BusLocation.PlateNo = ''B2'', StationSeq = 3, RemainSeatCnt = 12\<rparr>"

definition cfg_1 :: RouteConfig where
  "cfg_1 = \<lparr>ID = 1, RouteID = ''233000031'', RouteName = ''3000'', StationID = ''121000012'',
     StationName = ''Gangnam'', Direction = ''up'', StaOrder = 14, IsActive = True\<rparr>"

definition cfg_2 :: RouteConfig where
  "cfg_2 = \<lparr>ID = 2, RouteID = ''233000031'', RouteName = ''3000'', StationID = ''121000058'',
     StationName = ''Yangjae'', Direction = ''up'', StaOrder = 16, IsActive = True\<rparr>"

definition cfg_3 :: RouteConfig where
  "cfg_3 = \<lparr>ID = 3, RouteID = ''234000016'', RouteName = ''M4403'', StationID = ''121000012'',
     StationName = ''Gangnam'', Direction = ''down'', StaOrder = 9, IsActive = True\<rparr>"

text \<open>A collector started while configurations 1 and 2 are active.\<close>

definition running_12 :: Collector where
  "running_12 = fst (Start Background (Inr [cfg_1, cfg_2]) (NewCollector 5000 0 0))"

text \<open>An instant \<open>s\<close> seconds after a fixed instant of the year 2025.\<close>

definition clock :: "int \<Rightarrow> time" where
  "clock s = (63900000000 + s) * Second"

definition sighting :: "string \<Rightarrow> int \<Rightarrow> int \<Rightarrow> BusArrivalInfo" where
  "sighting plateNo ordinal seats =
     \<lparr>BusArrivalInfo.PlateNo = plateNo, RemainSeatCnt = seats, LocationNo1 = ordinal\<rparr>"

definition seen_at :: "int \<Rightarrow> BusArrivalInfo list \<Rightarrow> tick_env" where
  "seen_at s arrivals =
     \<lparr>timeNow = clock s, GetRouteArrivalList = Inr arrivals,
      GetBusLocations = (\<lambda>plateNo. Inr []), Create = (\<lambda>busArrival. None)\<rparr>"

definition gone_at :: "int \<Rightarrow> BusLocation list \<Rightarrow> tick_env" where
  "gone_at s locations =
     \<lparr>timeNow = clock s, GetRouteArrivalList = Inr [],
      GetBusLocations = (\<lambda>plateNo. Inr locations), Create = (\<lambda>busArrival. None)\<rparr>"

definition store_fails :: "tick_env \<Rightarrow> tick_env" where
  "store_fails env = env\<lparr>Create := (\<lambda>busArrival. Some (Error ''database is locked''))\<rparr>"

definition fetch_fails :: "int \<Rightarrow> tick_env" where
  "fetch_fails s =
     \<lparr>timeNow = clock s, GetRouteArrivalList = Inl (Error ''API returned status 500''),
      GetBusLocations = (\<lambda>plateNo. Inr []), Create = (\<lambda>busArrival. None)\<rparr>"

definition loc_A1_seats4 :: BusLocation where
  "loc_A1_seats4 = \<lparr>BusLocation.PlateNo = ''A1'', StationSeq = 15, RemainSeatCnt = 4\<rparr>"

definition approaching_A1 :: BusState where
  "approaching_A1 =
     \<lparr>PlateNo = ''A1'', FirstSeenAt = clock 0, LastSeenAt = clock 60, SeatsBefore = 6,
      LocationNo = 1, Recorded = False, PendingArrivalID = 0, PassedAt = 0, RetryCount = 0\<rparr>"

definition tracking_A1 :: busStates where
  "tracking_A1 = [''A1'' \<mapsto> approaching_A1]"

definition arrival_A1 :: "int option \<Rightarrow> BusArrival" where
  "arrival_A1 seatsAfter =
     \<lparr>RouteConfigID = 1, BusNumber = ''A1'', ArrivalTime = clock 60,
      SeatsBefore = Some 6, SeatsAfter = seatsAfter\<rparr>"

section \<open>Properties\<close>

subsection \<open>Durations\<close>


lemma Sub_retention: "10 * Minute < Sub t u \<longleftrightarrow> 10 * Minute < t - u"
  by (simp add: Sub_def Let_def minDuration_def maxDuration_def Minute_def Second_def)

lemma Sub_ceiling: "Hour < Sub t u \<longleftrightarrow> Hour < t - u"
  by (simp add: Sub_def Let_def minDuration_def maxDuration_def Hour_def Minute_def Second_def)


subsection \<open>First loop\<close>

lemma trackArrival_current:
  "snd (trackArrival now a acc) p \<longleftrightarrow>
     snd acc p \<or> (p \<noteq> [] \<and> p = BusArrivalInfo.PlateNo a)"
  by (cases acc) (auto split: option.splits)

lemma trackArrivals_current:
  "snd (trackArrivals now as acc) p \<longleftrightarrow>
     snd acc p \<or> (p \<noteq> [] \<and> p \<in> BusArrivalInfo.PlateNo ` set as)"
  by (induction as arbitrary: acc) (auto simp: trackArrival_current simp del: trackArrival.simps)

lemma trackArrival_other:
  "p = [] \<or> p \<noteq> BusArrivalInfo.PlateNo a \<Longrightarrow> fst (trackArrival now a acc) p = fst acc p"
  by (cases acc) (auto split: option.splits)

lemma trackArrivals_other:
  "p = [] \<or> p \<notin> BusArrivalInfo.PlateNo ` set as \<Longrightarrow>
     fst (trackArrivals now as acc) p = fst acc p"
proof (induction as arbitrary: acc)
  case Nil
  show ?case by simp
next
  case (Cons x xs)
  from Cons.prems have here: "p = [] \<or> p \<noteq> BusArrivalInfo.PlateNo x"
    and rest: "p = [] \<or> p \<notin> BusArrivalInfo.PlateNo ` set xs"
    by auto
  have "fst (trackArrivals now (x # xs) acc) p = fst (trackArrival now x acc) p"
    using Cons.IH [OF rest, of "trackArrival now x acc"] by simp
  also have "\<dots> = fst acc p"
    by (rule trackArrival_other [OF here])
  finally show ?case .
qed

text \<open>What one arrival with plate \<open>p\<close> makes of the entry under \<open>p\<close>.\<close>

lemma trackArrival_same:
  "BusArrivalInfo.PlateNo a = p \<Longrightarrow> p \<noteq> [] \<Longrightarrow>
   fst (trackArrival now a acc) p =
     (case fst acc p of
        None \<Rightarrow>
          Some \<lparr>PlateNo = BusArrivalInfo.PlateNo a, FirstSeenAt = now, LastSeenAt = now,
                SeatsBefore = BusArrivalInfo.RemainSeatCnt a, LocationNo = LocationNo1 a,
                Recorded = False, PendingArrivalID = 0, PassedAt = 0, RetryCount = 0\<rparr>
      | Some state \<Rightarrow>
          Some (state\<lparr>LastSeenAt := now,
                  SeatsBefore := (if LocationNo1 a < LocationNo state
                                  then BusArrivalInfo.RemainSeatCnt a else SeatsBefore state),
                  LocationNo := (if LocationNo1 a < LocationNo state
                                 then LocationNo1 a else LocationNo state)\<rparr>))"
  by (cases acc) (auto split: option.splits)

lemma trackArrivals_once:
  "filter (\<lambda>a. BusArrivalInfo.PlateNo a = p) as = [a] \<Longrightarrow> p \<noteq> [] \<Longrightarrow>
   fst (trackArrivals now as acc) p = fst (trackArrival now a acc) p"
proof (induction as arbitrary: acc)
  case Nil
  then show ?case by simp
next
  case (Cons x xs)
  show ?case
  proof (cases "BusArrivalInfo.PlateNo x = p")
    case True
    with Cons.prems have xa: "x = a" and rest: "filter (\<lambda>a. BusArrivalInfo.PlateNo a = p) xs = []"
      by simp_all
    from rest have "p \<notin> BusArrivalInfo.PlateNo ` set xs"
      by (auto simp: filter_empty_conv)
    then show ?thesis
      using xa by (simp add: trackArrivals_other)
  next
    case False
    with Cons.prems have rest: "filter (\<lambda>a. BusArrivalInfo.PlateNo a = p) xs = [a]"
      by simp
    then have "a \<in> set (filter (\<lambda>a. BusArrivalInfo.PlateNo a = p) xs)" by simp
    then have pa: "BusArrivalInfo.PlateNo a = p" by simp
    have same: "fst (trackArrival now x acc) p = fst acc p"
      using False by (simp add: trackArrival_other)
    have "fst (trackArrivals now (x # xs) acc) p = fst (trackArrival now a (trackArrival now x acc)) p"
      using Cons.IH [OF rest Cons.prems(2)] by simp
    also have "\<dots> = fst (trackArrival now a acc) p"
      using pa Cons.prems(2) same by (simp add: trackArrival_same)
    finally show ?thesis .
  qed
qed

text \<open>The first loop never changes when an entry was first seen, whether it is recorded,
  when it passed or how often it was retried, and it deletes nothing.\<close>

lemma trackArrival_tracked:
  "fst acc p = Some state \<Longrightarrow>
   \<exists>state'. fst (trackArrival now a acc) p = Some state'
      \<and> FirstSeenAt state' = FirstSeenAt state \<and> Recorded state' = Recorded state
      \<and> PassedAt state' = PassedAt state \<and> RetryCount state' = RetryCount state"
  by (cases acc) (auto split: option.splits)

lemma trackArrivals_tracked:
  "fst acc p = Some state \<Longrightarrow>
   \<exists>state'. fst (trackArrivals now as acc) p = Some state'
      \<and> FirstSeenAt state' = FirstSeenAt state \<and> Recorded state' = Recorded state
      \<and> PassedAt state' = PassedAt state \<and> RetryCount state' = RetryCount state"
proof (induction as arbitrary: acc state)
  case Nil
  then show ?case by simp
next
  case (Cons x xs)
  from trackArrival_tracked [OF Cons.prems, of now x]
  obtain s1 where s1: "fst (trackArrival now x acc) p = Some s1"
    "FirstSeenAt s1 = FirstSeenAt state" "Recorded s1 = Recorded state"
    "PassedAt s1 = PassedAt state" "RetryCount s1 = RetryCount state"
    by blast
  from Cons.IH [OF s1(1)] s1(2-) show ?case by simp
qed

lemma trackArrival_fresh:
  "fst acc p = None \<Longrightarrow>
   fst (trackArrival now a acc) p = None \<or>
   (\<exists>state'. fst (trackArrival now a acc) p = Some state'
      \<and> FirstSeenAt state' = now \<and> \<not> Recorded state')"
  by (cases acc) (auto split: option.splits)

lemma trackArrivals_fresh:
  "fst acc p = None \<Longrightarrow>
   fst (trackArrivals now as acc) p = None \<or>
   (\<exists>state'. fst (trackArrivals now as acc) p = Some state'
      \<and> FirstSeenAt state' = now \<and> \<not> Recorded state')"
proof (induction as arbitrary: acc)
  case Nil
  then show ?case by simp
next
  case (Cons x xs)
  from trackArrival_fresh [OF Cons.prems, of now x]
  show ?case
  proof
    assume "fst (trackArrival now x acc) p = None"
    from Cons.IH [OF this] show ?thesis by simp
  next
    assume "\<exists>state'. fst (trackArrival now x acc) p = Some state'
      \<and> FirstSeenAt state' = now \<and> \<not> Recorded state'"
    then obtain s1 where s1: "fst (trackArrival now x acc) p = Some s1"
      "FirstSeenAt s1 = now" "\<not> Recorded s1" by blast
    from trackArrivals_tracked [OF s1(1), of now xs] s1(2-)
    show ?thesis by auto
  qed
qed

subsection \<open>Second loop\<close>

lemma recordPassage_recorded:
  "Recorded state \<Longrightarrow> recordPassage config env p state = (state, None)"
  by (simp add: recordPassage_def)

lemma recordPassage_confirmed:
  assumes "\<not> Recorded state"
    and "getSeatsAfterFromBusLocation (GetBusLocations env p) p = Some seats"
    and "t0 = (if PassedAt state = 0 then timeNow env else PassedAt state)"
    and "r = \<lparr>RouteConfigID = ID config, BusNumber = p, ArrivalTime = LastSeenAt state,
              SeatsBefore = Some (SeatsBefore state), SeatsAfter = Some seats\<rparr>"
  shows "recordPassage config env p state =
           (state\<lparr>PassedAt := t0, Recorded := (Create env r = None)\<rparr>, Some (r, Create env r))"
  using assms by (cases "Create env r") (simp_all add: recordPassage_def IsZero_def Let_def)



lemma recordPassage_seen:
  "LastSeenAt (fst (recordPassage config env p state)) = LastSeenAt state
   \<and> FirstSeenAt (fst (recordPassage config env p state)) = FirstSeenAt state"
  by (simp add: recordPassage_def Let_def split: option.splits)

lemma recordPassage_flag:
  "Recorded (fst (recordPassage config env p state)) \<longleftrightarrow>
     Recorded state \<or> (\<exists>r. snd (recordPassage config env p state) = Some (r, None))"
  by (simp add: recordPassage_def Let_def split: option.splits)

subsection \<open>One cycle, at one plate\<close>

lemma collectData_error:
  "GetRouteArrivalList env = Inl err \<Longrightarrow> collectData config env busStates = (busStates, Map.empty)"
  by (simp add: collectData_def)

lemma collectData_absent:
  assumes "GetRouteArrivalList env = Inr as"
    and "p = [] \<or> p \<notin> BusArrivalInfo.PlateNo ` set as"
  shows "fst (collectData config env busStates) p =
           (case busStates p of
              None \<Rightarrow> None
            | Some state \<Rightarrow>
                if 10 * Minute < timeNow env - LastSeenAt state
                   \<or> Hour < timeNow env - FirstSeenAt state
                then None
                else Some (fst (recordPassage config env p state)))"
    and "snd (collectData config env busStates) p =
           (case busStates p of
              None \<Rightarrow> None
            | Some state \<Rightarrow> snd (recordPassage config env p state))"
proof -
  let ?tr = "trackArrivals (timeNow env) as (busStates, \<lambda>plateNo. False)"
  have cur: "\<not> snd ?tr p"
    using assms(2) by (simp add: trackArrivals_current)
  have same: "fst ?tr p = busStates p"
    using assms(2) by (simp add: trackArrivals_other)
  show "fst (collectData config env busStates) p =
           (case busStates p of
              None \<Rightarrow> None
            | Some state \<Rightarrow>
                if 10 * Minute < timeNow env - LastSeenAt state
                   \<or> Hour < timeNow env - FirstSeenAt state
                then None
                else Some (fst (recordPassage config env p state)))"
    using cur same assms(1)
    by (simp add: collectData_def Let_def checkPassed_def cleanupOld_def
        recordPassage_seen Sub_retention Sub_ceiling split: option.splits)
  show "snd (collectData config env busStates) p =
           (case busStates p of
              None \<Rightarrow> None
            | Some state \<Rightarrow> snd (recordPassage config env p state))"
    using cur same assms(1)
    by (simp add: collectData_def Let_def checkPassed_def split: option.splits)
qed

lemma collectData_present:
  assumes "GetRouteArrivalList env = Inr as"
    and "p \<noteq> []" and "p \<in> BusArrivalInfo.PlateNo ` set as"
  shows "fst (collectData config env busStates) p =
           (case fst (trackArrivals (timeNow env) as (busStates, \<lambda>plateNo. False)) p of
              None \<Rightarrow> None
            | Some state \<Rightarrow>
                if Hour < timeNow env - FirstSeenAt state then None else Some state)"
    and "snd (collectData config env busStates) p = None"
proof -
  let ?tr = "trackArrivals (timeNow env) as (busStates, \<lambda>plateNo. False)"
  have cur: "snd ?tr p"
    using assms(2,3) by (simp add: trackArrivals_current)
  show "fst (collectData config env busStates) p =
           (case fst ?tr p of
              None \<Rightarrow> None
            | Some state \<Rightarrow>
                if Hour < timeNow env - FirstSeenAt state then None else Some state)"
    using cur assms(1)
    by (simp add: collectData_def Let_def checkPassed_def cleanupOld_def Sub_ceiling
        split: option.splits)
  show "snd (collectData config env busStates) p = None"
    using cur assms(1)
    by (simp add: collectData_def Let_def checkPassed_def split: option.splits)
qed

text \<open>The flag of an entry across one cycle, and the calls made for it.\<close>

lemma collectData_flag:
  assumes "busStates p = Some state"
    and "fst (collectData config env busStates) p = Some state'"
  shows "Recorded state' \<longleftrightarrow>
           Recorded state \<or> (\<exists>r. snd (collectData config env busStates) p = Some (r, None))"
proof (cases "GetRouteArrivalList env")
  case (Inl err)
  with assms show ?thesis by (simp add: collectData_error)
next
  case (Inr as)
  show ?thesis
  proof (cases "p \<noteq> [] \<and> p \<in> BusArrivalInfo.PlateNo ` set as")
    case True
    from trackArrivals_tracked [of "(busStates, \<lambda>plateNo. False)" p state "timeNow env" as] assms(1)
    obtain s1 where s1: "fst (trackArrivals (timeNow env) as (busStates, \<lambda>plateNo. False)) p = Some s1"
      "Recorded s1 = Recorded state" by auto
    from True have p: "p \<noteq> []" "p \<in> BusArrivalInfo.PlateNo ` set as" by simp_all
    from assms(2) s1 collectData_present [OF Inr p, of config busStates]
    show ?thesis by (auto split: if_splits)
  next
    case False
    then have ab: "p = [] \<or> p \<notin> BusArrivalInfo.PlateNo ` set as" by blast
    from assms collectData_absent [OF Inr ab, of config busStates]
    show ?thesis by (auto simp: recordPassage_flag split: if_splits)
  qed
qed

lemma collectData_recorded_no_call:
  assumes "busStates p = Some state" and "Recorded state"
  shows "snd (collectData config env busStates) p = None"
proof (cases "GetRouteArrivalList env")
  case (Inl err)
  then show ?thesis by (simp add: collectData_error)
next
  case (Inr as)
  show ?thesis
  proof (cases "p \<noteq> [] \<and> p \<in> BusArrivalInfo.PlateNo ` set as")
    case True
    then show ?thesis using collectData_present(2) [OF Inr] by simp
  next
    case False
    then have ab: "p = [] \<or> p \<notin> BusArrivalInfo.PlateNo ` set as" by blast
    show ?thesis
      using assms collectData_absent(2) [OF Inr ab, of config busStates]
      by (simp add: recordPassage_recorded)
  qed
qed

lemma collectData_untracked:
  assumes "busStates p = None"
  shows "snd (collectData config env busStates) p = None"
    and "fst (collectData config env busStates) p = Some state' \<Longrightarrow> \<not> Recorded state'"
proof -
  show "snd (collectData config env busStates) p = None"
  proof (cases "GetRouteArrivalList env")
    case (Inl err)
    then show ?thesis by (simp add: collectData_error)
  next
    case (Inr as)
    show ?thesis
    proof (cases "p \<noteq> [] \<and> p \<in> BusArrivalInfo.PlateNo ` set as")
      case True
      then show ?thesis using collectData_present(2) [OF Inr] by simp
    next
      case False
      then have ab: "p = [] \<or> p \<notin> BusArrivalInfo.PlateNo ` set as" by blast
      show ?thesis
        using assms collectData_absent(2) [OF Inr ab, of config busStates] by simp
    qed
  qed
  show "\<not> Recorded state'" if after: "fst (collectData config env busStates) p = Some state'"
  proof (cases "GetRouteArrivalList env")
    case (Inl err)
    with assms after show ?thesis by (simp add: collectData_error)
  next
    case (Inr as)
    show ?thesis
    proof (cases "p \<noteq> [] \<and> p \<in> BusArrivalInfo.PlateNo ` set as")
      case True
      then have p: "p \<noteq> []" "p \<in> BusArrivalInfo.PlateNo ` set as" by simp_all
      from trackArrivals_fresh [of "(busStates, \<lambda>plateNo. False)" p "timeNow env" as] assms
      have "fst (trackArrivals (timeNow env) as (busStates, \<lambda>plateNo. False)) p = None \<or>
        (\<exists>s1. fst (trackArrivals (timeNow env) as (busStates, \<lambda>plateNo. False)) p = Some s1
           \<and> FirstSeenAt s1 = timeNow env \<and> \<not> Recorded s1)" by simp
      with after collectData_present(1) [OF Inr p, of config busStates]
      show ?thesis by (auto split: if_splits)
    next
      case False
      then have ab: "p = [] \<or> p \<notin> BusArrivalInfo.PlateNo ` set as" by blast
      show ?thesis
        using assms after collectData_absent(1) [OF Inr ab, of config busStates] by simp
    qed
  qed
qed

subsection \<open>Finalize once\<close>

lemma entryCreates_recorded:
  "busStates p = Some state \<Longrightarrow> Recorded state \<Longrightarrow> entryCreates config p envs busStates = []"
proof (induction envs arbitrary: busStates state)
  case Nil
  show ?case by simp
next
  case (Cons env envs)
  have nocall: "snd (collectData config env busStates) p = None"
    by (rule collectData_recorded_no_call [of busStates p state, OF Cons.prems])
  have rest: "entryCreates config p envs (fst (collectData config env busStates)) = []"
  proof (cases "fst (collectData config env busStates) p")
    case None
    then show ?thesis by (cases envs) simp_all
  next
    case (Some state')
    from collectData_flag [OF Cons.prems(1) Some] Cons.prems(2)
    have "Recorded state'" by simp
    from Cons.IH [of "fst (collectData config env busStates)" state', OF Some this]
    show ?thesis .
  qed
  from Cons.prems(1) nocall rest show ?case by simp
qed

lemma entryCreates_once:
  "length (filter (\<lambda>call. snd call = None) (entryCreates config p envs busStates)) \<le> 1"
proof (induction envs arbitrary: busStates)
  case Nil
  show ?case by simp
next
  case (Cons env envs)
  show ?case
  proof (cases "busStates p")
    case None
    then show ?thesis by simp
  next
    case (Some state)
    note tracked = Some
    show ?thesis
    proof (cases "snd (collectData config env busStates) p")
      case None
      with tracked Cons.IH [of "fst (collectData config env busStates)"]
      show ?thesis by simp
    next
      case (Some call)
      show ?thesis
      proof (cases "snd call")
        case None
        then have call: "snd (collectData config env busStates) p = Some (fst call, None)"
          using Some by (cases call) simp
        have rest: "entryCreates config p envs (fst (collectData config env busStates)) = []"
        proof (cases "fst (collectData config env busStates) p")
          case None
          then show ?thesis by (cases envs) simp_all
        next
          case (Some state')
          from collectData_flag [OF tracked Some] call
          have "Recorded state'" by simp
          from entryCreates_recorded [of "fst (collectData config env busStates)" p state', OF Some this]
          show ?thesis .
        qed
        from tracked Some None rest show ?thesis by simp
      next
        case (Some err)
        with tracked \<open>snd (collectData config env busStates) p = Some call\<close>
          Cons.IH [of "fst (collectData config env busStates)"]
        show ?thesis by simp
      qed
    qed
  qed
qed

subsection \<open>The worker loop\<close>

text \<open>While the gate is open and no stop arrives, the worker's tracking map after a
  run of ticks is the map after the same run of cycles; the worker waits for the next
  event.\<close>

lemma collectForConfig_cycles:
  "isWithinTimeWindow c hour \<Longrightarrow>
   collectForConfig c cc (map (TickerC hour) envs) busStates =
     (Waiting, cycles (cfg cc) envs busStates,
      snd (snd (collectForConfig c cc (map (TickerC hour) envs) busStates)))"
  by (induction envs arbitrary: busStates) (simp_all add: Let_def prod_eq_iff)

subsection \<open>Finalize once, over cycles\<close>

text \<open>
  C1. Over any sequence of cycles, at most one \<open>Create\<close> call made for an entry
  returns without error; once the entry is recorded no \<open>Create\<close> call is made for
  it again. Across one cycle the flag \<open>Recorded\<close> of an entry that stays tracked is
  true exactly when it was true before or a \<open>Create\<close> call for the entry returned
  without error in this cycle: it never goes back to false, and it stays false when
  \<open>Create\<close> returned an error. An entry made in this cycle is not recorded and no
  \<open>Create\<close> call is made for it.
\<close>

theorem finalize_once:
  "length (filter (\<lambda>call. snd call = None) (entryCreates config p envs busStates)) \<le> 1
   \<and> (busStates p = Some state \<and> Recorded state \<longrightarrow>
        entryCreates config p envs busStates = [])
   \<and> (busStates p = Some state \<and> fst (collectData config env busStates) p = Some state' \<longrightarrow>
        (Recorded state' \<longleftrightarrow>
           Recorded state \<or> (\<exists>r. snd (collectData config env busStates) p = Some (r, None))))
   \<and> (busStates p = Some state \<and> fst (collectData config env busStates) p = Some state'
        \<and> snd (collectData config env busStates) p = Some (r, Some err) \<longrightarrow>
        \<not> Recorded state')
   \<and> (busStates p = None \<longrightarrow>
        snd (collectData config env busStates) p = None
        \<and> (fst (collectData config env busStates) p = Some state' \<longrightarrow> \<not> Recorded state'))"
proof -
  have a: "length (filter (\<lambda>call. snd call = None) (entryCreates config p envs busStates)) \<le> 1"
    by (rule entryCreates_once)
  have b: "busStates p = Some state \<and> Recorded state \<longrightarrow>
        entryCreates config p envs busStates = []"
    using entryCreates_recorded [of busStates p state config envs] by blast
  have c: "busStates p = Some state \<and> fst (collectData config env busStates) p = Some state' \<longrightarrow>
        (Recorded state' \<longleftrightarrow>
           Recorded state \<or> (\<exists>r. snd (collectData config env busStates) p = Some (r, None)))"
    using collectData_flag [of busStates p state config env state'] by blast
  have d: "busStates p = Some state \<and> fst (collectData config env busStates) p = Some state'
        \<and> snd (collectData config env busStates) p = Some (r, Some err) \<longrightarrow>
        \<not> Recorded state'"
  proof (intro impI, elim conjE)
    assume tracked: "busStates p = Some state"
      and after: "fst (collectData config env busStates) p = Some state'"
      and call: "snd (collectData config env busStates) p = Some (r, Some err)"
    have "\<not> Recorded state"
      using collectData_recorded_no_call [of busStates p state config env] tracked call by auto
    then show "\<not> Recorded state'"
      using collectData_flag [of busStates p state config env state'] tracked after call by simp
  qed
  have e: "busStates p = None \<longrightarrow>
        snd (collectData config env busStates) p = None
        \<and> (fst (collectData config env busStates) p = Some state' \<longrightarrow> \<not> Recorded state')"
    using collectData_untracked(1) [of busStates p config env]
      collectData_untracked(2) [of busStates p config env state'] by blast
  show ?thesis
    by (intro conjI) (rule a b c d e)+
qed

theorem finalize_once_witness:
  "entryCreates cfg_1 ''A1''
      [store_fails (gone_at 90 [loc_A1_seats4]), gone_at 120 [loc_A1_seats4],
       gone_at 150 [loc_A1_seats4]] tracking_A1 =
     [(arrival_A1 (Some 4), Some (Error ''database is locked'')), (arrival_A1 (Some 4), None)]
   \<and> tracking_A1 ''A1'' = Some approaching_A1
   \<and> snd (collectData cfg_1 (store_fails (gone_at 90 [loc_A1_seats4])) tracking_A1) ''A1'' =
       Some (arrival_A1 (Some 4), Some (Error ''database is locked''))
   \<and> fst (collectData cfg_1 (store_fails (gone_at 90 [loc_A1_seats4])) tracking_A1) ''A1'' =
       Some (approaching_A1\<lparr>PassedAt := clock 90\<rparr>)
   \<and> \<not> Recorded (approaching_A1\<lparr>PassedAt := clock 90\<rparr>)
   \<and> snd (collectData cfg_1 (gone_at 90 [loc_A1_seats4]) tracking_A1) ''A1'' =
       Some (arrival_A1 (Some 4), None)
   \<and> fst (collectData cfg_1 (gone_at 90 [loc_A1_seats4]) tracking_A1) ''A1'' =
       Some (approaching_A1\<lparr>PassedAt := clock 90, Recorded := True\<rparr>)
   \<and> entryCreates cfg_1 ''A1'' [gone_at 120 [loc_A1_seats4], gone_at 150 [loc_A1_seats4]]
       [''A1'' \<mapsto> approaching_A1\<lparr>PassedAt := clock 90, Recorded := True\<rparr>] = []"
  using finalize_once [of cfg_1 "''A1''"
      "[store_fails (gone_at 90 [loc_A1_seats4]), gone_at 120 [loc_A1_seats4],
        gone_at 150 [loc_A1_seats4]]" tracking_A1 approaching_A1
      "store_fails (gone_at 90 [loc_A1_seats4])" "approaching_A1\<lparr>PassedAt := clock 90\<rparr>"
      "arrival_A1 (Some 4)" "Error ''database is locked''"]
    finalize_once [of cfg_1 "''A1''" "[gone_at 120 [loc_A1_seats4], gone_at 150 [loc_A1_seats4]]"
      "[''A1'' \<mapsto> approaching_A1\<lparr>PassedAt := clock 90, Recorded := True\<rparr>]"
      "approaching_A1\<lparr>PassedAt := clock 90, Recorded := True\<rparr>"
      "gone_at 90 [loc_A1_seats4]" "approaching_A1\<lparr>PassedAt := clock 90, Recorded := True\<rparr>"
      "arrival_A1 (Some 4)" "Error ''database is locked''"]
  by (simp add: tracking_A1_def approaching_A1_def gone_at_def arrival_A1_def store_fails_def
      clock_def loc_A1_seats4_def cfg_1_def collectData_def checkPassed_def
      cleanupOld_def recordPassage_def getSeatsAfterFromBusLocation_def Let_def
      IsZero_def Sub_def minDuration_def maxDuration_def Hour_def Minute_def
      Second_def)

subsection \<open>Removal\<close>

text \<open>
  C2 fails as stated. A plate is first seen at second 0; the snapshot fetch of the
  next cycle fails; the plate is gone from the snapshot of the cycle at second 660. The
  entry is never recorded, no \<open>Create\<close> call is ever made for it and it is less than
  one hour old, yet the last cycle deletes it.
\<close>

theorem entry_removal_counterexample:
  "cycles cfg_1 [seen_at 0 [sighting ''A1'' 3 10]] Map.empty ''A1'' =
     Some \<lparr>PlateNo = ''A1'', FirstSeenAt = clock 0, LastSeenAt = clock 0, SeatsBefore = 10,
           LocationNo = 3, Recorded = False, PendingArrivalID = 0, PassedAt = 0, RetryCount = 0\<rparr>
   \<and> clock 660 - clock 0 < 1 * Hour
   \<and> entryCreates cfg_1 ''A1'' [fetch_fails 300, gone_at 660 []]
        (cycles cfg_1 [seen_at 0 [sighting ''A1'' 3 10]] Map.empty) = []
   \<and> cycles cfg_1 [seen_at 0 [sighting ''A1'' 3 10], fetch_fails 300] Map.empty ''A1'' =
     Some \<lparr>PlateNo = ''A1'', FirstSeenAt = clock 0, LastSeenAt = clock 0, SeatsBefore = 10,
           LocationNo = 3, Recorded = False, PendingArrivalID = 0, PassedAt = 0, RetryCount = 0\<rparr>
   \<and> cycles cfg_1 [seen_at 0 [sighting ''A1'' 3 10], fetch_fails 300, gone_at 660 []]
        Map.empty ''A1'' = None"
  by (simp add: gone_at_def seen_at_def fetch_fails_def sighting_def clock_def cfg_1_def
      collectData_def checkPassed_def cleanupOld_def recordPassage_def
      getSeatsAfterFromBusLocation_def Let_def IsZero_def Sub_def minDuration_def
      maxDuration_def Hour_def Minute_def Second_def)

text \<open>
  C2, as the code has it. A cycle deletes a tracked entry exactly when the snapshot was
  fetched and either the plate is not in the snapshot and the entry was last seen more
  than ten minutes ago (whether or not it is recorded), or the entry was first seen more
  than one hour ago. In particular an entry last seen at most ten minutes ago and first
  seen at most one hour ago is not deleted.
\<close>

theorem entry_removal:
  assumes "busStates p = Some state"
  shows "(fst (collectData config env busStates) p = None \<longleftrightarrow>
           (case GetRouteArrivalList env of
              Inl err \<Rightarrow> False
            | Inr arrivals \<Rightarrow>
                ((p = [] \<or> p \<notin> BusArrivalInfo.PlateNo ` set arrivals)
                   \<and> 10 * Minute < timeNow env - LastSeenAt state)
                \<or> 1 * Hour < timeNow env - FirstSeenAt state))
         \<and> (timeNow env - LastSeenAt state \<le> 10 * Minute
              \<and> timeNow env - FirstSeenAt state \<le> 1 * Hour \<longrightarrow>
            fst (collectData config env busStates) p \<noteq> None)"
proof -
  have main: "fst (collectData config env busStates) p = None \<longleftrightarrow>
           (case GetRouteArrivalList env of
              Inl err \<Rightarrow> False
            | Inr arrivals \<Rightarrow>
                ((p = [] \<or> p \<notin> BusArrivalInfo.PlateNo ` set arrivals)
                   \<and> 10 * Minute < timeNow env - LastSeenAt state)
                \<or> 1 * Hour < timeNow env - FirstSeenAt state)"
  proof (cases "GetRouteArrivalList env")
    case (Inl err)
    with assms show ?thesis by (simp add: collectData_error)
  next
    case (Inr as)
    show ?thesis
    proof (cases "p \<noteq> [] \<and> p \<in> BusArrivalInfo.PlateNo ` set as")
      case True
      then have p: "p \<noteq> []" "p \<in> BusArrivalInfo.PlateNo ` set as" by simp_all
      from trackArrivals_tracked [of "(busStates, \<lambda>plateNo. False)" p state "timeNow env" as] assms
      obtain s1 where s1: "fst (trackArrivals (timeNow env) as (busStates, \<lambda>plateNo. False)) p = Some s1"
        "FirstSeenAt s1 = FirstSeenAt state" by auto
      from s1 p Inr collectData_present(1) [OF Inr p, of config busStates]
      show ?thesis by simp
    next
      case False
      then have ab: "p = [] \<or> p \<notin> BusArrivalInfo.PlateNo ` set as" by blast
      from assms Inr ab collectData_absent(1) [OF Inr ab, of config busStates]
      show ?thesis by auto
    qed
  qed
  then show ?thesis
    by (auto split: sum.splits)
qed

theorem entry_removal_witness:
  "tracking_A1 ''A1'' = Some approaching_A1
   \<and> fst (collectData cfg_1 (gone_at 661 []) tracking_A1) ''A1'' = None
   \<and> fst (collectData cfg_1 (seen_at 3601 [sighting ''A1'' 1 6]) tracking_A1) ''A1'' = None
   \<and> fst (collectData cfg_1 (gone_at 660 []) tracking_A1) ''A1'' \<noteq> None
   \<and> fst (collectData cfg_1 (fetch_fails 7200) tracking_A1) ''A1'' \<noteq> None"
  using entry_removal [of tracking_A1 "''A1''" approaching_A1 cfg_1 "gone_at 661 []"]
    entry_removal [of tracking_A1 "''A1''" approaching_A1 cfg_1 "seen_at 3601 [sighting ''A1'' 1 6]"]
    entry_removal [of tracking_A1 "''A1''" approaching_A1 cfg_1 "gone_at 660 []"]
    entry_removal [of tracking_A1 "''A1''" approaching_A1 cfg_1 "fetch_fails 7200"]
  by (simp add: tracking_A1_def approaching_A1_def gone_at_def seen_at_def fetch_fails_def
      sighting_def clock_def cfg_1_def Hour_def Minute_def Second_def)

subsection \<open>Time-window gate\<close>

text \<open>
  C6. The window is open exactly in the four cases of the specification: both hours 0;
  start before end and the hour in the half-open interval; start after end and the hour
  at or after start or before end; start equal to a nonzero end and the hour equal to it.
  With 22 and 2, hours 23 and 1 are open and hour 10 is closed; with 0 and 0 every hour
  is open.
\<close>

theorem time_window_gate:
  "(isWithinTimeWindow c hour \<longleftrightarrow>
      (startHour c = 0 \<and> endHour c = 0)
    \<or> (startHour c < endHour c \<and> startHour c \<le> hour \<and> hour < endHour c)
    \<or> (endHour c < startHour c \<and> (startHour c \<le> hour \<or> hour < endHour c))
    \<or> (startHour c = endHour c \<and> startHour c \<noteq> 0 \<and> hour = startHour c))
   \<and> (startHour c = 22 \<and> endHour c = 2 \<longrightarrow>
        isWithinTimeWindow c 23 \<and> isWithinTimeWindow c 1 \<and> \<not> isWithinTimeWindow c 10)
   \<and> (startHour c = 0 \<and> endHour c = 0 \<longrightarrow> isWithinTimeWindow c hour)"
  by (auto simp: isWithinTimeWindow_def)

theorem time_window_gate_witness:
  "isWithinTimeWindow (NewCollector 5000 22 2) 23
   \<and> isWithinTimeWindow (NewCollector 5000 22 2) 1
   \<and> \<not> isWithinTimeWindow (NewCollector 5000 22 2) 10
   \<and> isWithinTimeWindow (NewCollector 5000 0 0) 13
   \<and> isWithinTimeWindow (NewCollector 5000 9 18) 9
   \<and> \<not> isWithinTimeWindow (NewCollector 5000 9 18) 18
   \<and> isWithinTimeWindow (NewCollector 5000 7 7) 7
   \<and> \<not> isWithinTimeWindow (NewCollector 5000 7 7) 8"
  using time_window_gate [of "NewCollector 5000 22 2" 23]
    time_window_gate [of "NewCollector 5000 0 0" 13]
    time_window_gate [of "NewCollector 5000 9 18" 9]
    time_window_gate [of "NewCollector 5000 9 18" 18]
    time_window_gate [of "NewCollector 5000 7 7" 7]
    time_window_gate [of "NewCollector 5000 7 7" 8]
  by (simp add: NewCollector_def)

subsection \<open>Confirmation lookup\<close>

lemma scanLocations_find:
  "scanLocations locations plateNo =
     (case find (\<lambda>loc. BusLocation.PlateNo loc = plateNo) locations of
        None \<Rightarrow> None
      | Some loc \<Rightarrow>
          if BusLocation.RemainSeatCnt loc < 0 then None
          else Some (BusLocation.RemainSeatCnt loc))"
  by (induction locations) simp_all

lemma scanLocations_Some:
  "scanLocations locations plateNo = Some seats \<Longrightarrow>
     0 \<le> seats \<and> (\<exists>loc \<in> set locations.
        BusLocation.PlateNo loc = plateNo \<and> BusLocation.RemainSeatCnt loc = seats)"
  by (induction locations) (auto split: if_splits)

lemma scanLocations_absent:
  "plateNo \<notin> BusLocation.PlateNo ` set locations \<Longrightarrow> scanLocations locations plateNo = None"
  by (induction locations) auto

text \<open>
  C7. The lookup has no error result: it returns \<open>None\<close> when the fetch failed,
  when no returned location carries the plate, and when the first location that carries
  the plate has a negative seat count; otherwise it returns that location's seat
  count. A returned value is therefore never negative and is the seat count of a
  location with the plate, and a seat count of 0 is returned as a value.
\<close>

theorem confirmation_lookup:
  "getSeatsAfterFromBusLocation (Inl err) plateNo = None
   \<and> (plateNo \<notin> BusLocation.PlateNo ` set locations \<longrightarrow>
        getSeatsAfterFromBusLocation (Inr locations) plateNo = None)
   \<and> getSeatsAfterFromBusLocation (Inr locations) plateNo =
       (case find (\<lambda>loc. BusLocation.PlateNo loc = plateNo) locations of
          None \<Rightarrow> None
        | Some loc \<Rightarrow>
            if BusLocation.RemainSeatCnt loc < 0 then None
            else Some (BusLocation.RemainSeatCnt loc))
   \<and> (getSeatsAfterFromBusLocation fetched plateNo = Some seats \<longrightarrow>
        0 \<le> seats \<and>
        (\<exists>locs. fetched = Inr locs \<and>
           (\<exists>loc \<in> set locs.
              BusLocation.PlateNo loc = plateNo \<and> BusLocation.RemainSeatCnt loc = seats)))"
proof -
  have a: "getSeatsAfterFromBusLocation (Inl err) plateNo = None"
    by (simp add: getSeatsAfterFromBusLocation_def)
  have b: "plateNo \<notin> BusLocation.PlateNo ` set locations \<longrightarrow>
        getSeatsAfterFromBusLocation (Inr locations) plateNo = None"
    by (simp add: getSeatsAfterFromBusLocation_def scanLocations_absent)
  have c: "getSeatsAfterFromBusLocation (Inr locations) plateNo =
       (case find (\<lambda>loc. BusLocation.PlateNo loc = plateNo) locations of
          None \<Rightarrow> None
        | Some loc \<Rightarrow>
            if BusLocation.RemainSeatCnt loc < 0 then None
            else Some (BusLocation.RemainSeatCnt loc))"
    by (simp add: getSeatsAfterFromBusLocation_def scanLocations_find)
  have d: "getSeatsAfterFromBusLocation fetched plateNo = Some seats \<longrightarrow>
        0 \<le> seats \<and>
        (\<exists>locs. fetched = Inr locs \<and>
           (\<exists>loc \<in> set locs.
              BusLocation.PlateNo loc = plateNo \<and> BusLocation.RemainSeatCnt loc = seats))"
    by (cases fetched) (auto simp: getSeatsAfterFromBusLocation_def dest: scanLocations_Some)
  from a b c d show ?thesis by blast
qed

theorem confirmation_lookup_witness:
  "getSeatsAfterFromBusLocation (Inl (Error ''timeout'')) ''A1'' = None
   \<and> getSeatsAfterFromBusLocation (Inr [loc_B2]) ''A1'' = None
   \<and> getSeatsAfterFromBusLocation (Inr [loc_B2, loc_A1_unavailable]) ''A1'' = None
   \<and> getSeatsAfterFromBusLocation (Inr [loc_B2, loc_A1_empty]) ''A1'' = Some 0
   \<and> getSeatsAfterFromBusLocation (Inr [loc_B2, loc_A1_empty]) ''B2'' = Some 12"
  using confirmation_lookup [of "Error ''timeout''" "''A1''" "[loc_B2]" "Inr [loc_B2]" 0]
    confirmation_lookup [of "Error ''timeout''" "''A1''" "[loc_B2, loc_A1_unavailable]" "Inr [loc_B2]" 0]
    confirmation_lookup [of "Error ''timeout''" "''A1''" "[loc_B2, loc_A1_empty]" "Inr [loc_B2]" 0]
    confirmation_lookup [of "Error ''timeout''" "''B2''" "[loc_B2, loc_A1_empty]" "Inr [loc_B2]" 0]
  by (simp add: loc_A1_unavailable_def loc_A1_empty_def loc_B2_def)

subsection \<open>Reconciliation\<close>

lemma activeIDs_iff: "activeIDs configs acc k \<longleftrightarrow> acc k \<or> k \<in> ID ` set configs"
  by (induction configs arbitrary: acc) auto

lemma startNew_dom:
  "fst (startNew configs running) k \<noteq> None \<longleftrightarrow> running k \<noteq> None \<or> k \<in> ID ` set configs"
  by (induction configs arbitrary: running) (auto simp: Let_def)

lemma startNew_keeps:
  "running k \<noteq> None \<Longrightarrow> fst (startNew configs running) k = running k"
  by (induction configs arbitrary: running) (auto simp: Let_def)

lemma startNew_fixpoint:
  "\<forall>config \<in> set configs. running (ID config) \<noteq> None \<Longrightarrow> startNew configs running = (running, [])"
  by (induction configs arbitrary: running) auto

lemma startNew_started_ids:
  "ID ` set (snd (startNew configs running)) = {k \<in> ID ` set configs. running k = None}"
  by (induction configs arbitrary: running) (auto simp: Let_def)

lemma startNew_started_distinct:
  "distinct (map ID (snd (startNew configs running)))"
  by (induction configs arbitrary: running) (auto simp: Let_def startNew_started_ids)

lemma startNew_started_stored:
  "config \<in> set (snd (startNew configs running)) \<Longrightarrow>
     fst (startNew configs running) (ID config) = Some \<lparr>cfg = config\<rparr>"
  by (induction configs arbitrary: running)
     (auto simp: Let_def startNew_keeps split: if_splits)

lemma syncConfigs_Inr:
  "syncConfigs (Inr configs) c =
     (c\<lparr>collectors := fst (startNew configs
           (\<lambda>k. if k \<in> ID ` set configs then collectors c k else None))\<rparr>,
      \<lparr>stopped = (\<lambda>k. collectors c k \<noteq> None \<and> k \<notin> ID ` set configs),
       started = snd (startNew configs
           (\<lambda>k. if k \<in> ID ` set configs then collectors c k else None))\<rparr>)"
proof -
  have "(\<lambda>k. if collectors c k \<noteq> None \<and> \<not> activeIDs configs (\<lambda>k. False) k then None
              else collectors c k) =
        (\<lambda>k. if k \<in> ID ` set configs then collectors c k else None)"
    by (auto simp: activeIDs_iff fun_eq_iff)
  then show ?thesis
    by (simp add: syncConfigs_def Let_def activeIDs_iff)
qed

text \<open>
  C9. When \<open>FindActive\<close> returns the configurations \<open>configs\<close>, one run of
  \<open>syncConfigs\<close> leaves a collector under exactly the IDs of \<open>configs\<close>: it
  stops the collectors whose key is not such an ID, starts one worker for each such ID
  that had no collector (one per ID, stored under that ID), and keeps the others as they
  were. A second run
  against the same configurations changes nothing, stops nothing and starts nothing.
\<close>

theorem reconciliation:
  "(collectors (fst (syncConfigs (Inr configs) c)) k \<noteq> None \<longleftrightarrow> k \<in> ID ` set configs)
   \<and> (stopped (snd (syncConfigs (Inr configs) c)) k \<longleftrightarrow>
         collectors c k \<noteq> None \<and> k \<notin> ID ` set configs)
   \<and> ID ` set (started (snd (syncConfigs (Inr configs) c))) =
         {k \<in> ID ` set configs. collectors c k = None}
   \<and> distinct (map ID (started (snd (syncConfigs (Inr configs) c))))
   \<and> (k \<in> ID ` set configs \<and> collectors c k \<noteq> None \<longrightarrow>
         collectors (fst (syncConfigs (Inr configs) c)) k = collectors c k)
   \<and> (config \<in> set (started (snd (syncConfigs (Inr configs) c))) \<longrightarrow>
         collectors (fst (syncConfigs (Inr configs) c)) (ID config) = Some \<lparr>cfg = config\<rparr>)
   \<and> syncConfigs (Inr configs) (fst (syncConfigs (Inr configs) c)) =
         (fst (syncConfigs (Inr configs) c), \<lparr>stopped = (\<lambda>k. False), started = []\<rparr>)"
proof -
  let ?kept = "\<lambda>k. if k \<in> ID ` set configs then collectors c k else None"
  let ?c1 = "fst (syncConfigs (Inr configs) c)"
  have dom1: "collectors ?c1 k \<noteq> None \<longleftrightarrow> k \<in> ID ` set configs" for k
    using startNew_dom [of configs ?kept k] by (simp add: syncConfigs_Inr)
  have a: "stopped (snd (syncConfigs (Inr configs) c)) k \<longleftrightarrow>
         collectors c k \<noteq> None \<and> k \<notin> ID ` set configs"
    by (simp add: syncConfigs_Inr)
  have b: "ID ` set (started (snd (syncConfigs (Inr configs) c))) =
         {k \<in> ID ` set configs. collectors c k = None}"
    by (auto simp: syncConfigs_Inr startNew_started_ids)
  have d: "distinct (map ID (started (snd (syncConfigs (Inr configs) c))))"
    by (simp add: syncConfigs_Inr startNew_started_distinct)
  have e: "k \<in> ID ` set configs \<and> collectors c k \<noteq> None \<longrightarrow>
         collectors ?c1 k = collectors c k"
    by (simp add: syncConfigs_Inr startNew_keeps)
  have g: "config \<in> set (started (snd (syncConfigs (Inr configs) c))) \<longrightarrow>
         collectors ?c1 (ID config) = Some \<lparr>cfg = config\<rparr>"
    by (simp add: syncConfigs_Inr startNew_started_stored)
  have none1: "collectors ?c1 k = None" if "k \<notin> ID ` set configs" for k
    using dom1 [of k] that by simp
  have kept2: "(\<lambda>k. if k \<in> ID ` set configs then collectors ?c1 k else None) = collectors ?c1"
    by (rule ext) (simp add: none1)
  have nostop: "(\<lambda>k. collectors ?c1 k \<noteq> None \<and> k \<notin> ID ` set configs) = (\<lambda>k. False)"
  proof (rule ext)
    fix k
    show "(collectors ?c1 k \<noteq> None \<and> k \<notin> ID ` set configs) = False"
      using none1 [of k] by (cases "k \<in> ID ` set configs") simp_all
  qed
  have all: "\<forall>config \<in> set configs. collectors ?c1 (ID config) \<noteq> None"
    using dom1 by blast
  have f: "syncConfigs (Inr configs) ?c1 = (?c1, \<lparr>stopped = (\<lambda>k. False), started = []\<rparr>)"
  proof -
    have "syncConfigs (Inr configs) ?c1 =
       (?c1\<lparr>collectors := fst (startNew configs (collectors ?c1))\<rparr>,
        \<lparr>stopped = (\<lambda>k. False), started = snd (startNew configs (collectors ?c1))\<rparr>)"
      by (subst syncConfigs_Inr) (simp only: kept2 nostop)
    also have "\<dots> = (?c1, \<lparr>stopped = (\<lambda>k. False), started = []\<rparr>)"
      by (simp only: startNew_fixpoint [OF all] fst_conv snd_conv Collector.update_convs Collector.surjective [symmetric]) simp
    finally show ?thesis .
  qed
  show ?thesis
    by (intro conjI) (rule dom1 a b d e g f)+
qed

theorem reconciliation_witness:
  "stopped (snd (syncConfigs (Inr [cfg_2, cfg_3]) running_12)) 1
   \<and> \<not> stopped (snd (syncConfigs (Inr [cfg_2, cfg_3]) running_12)) 2
   \<and> started (snd (syncConfigs (Inr [cfg_2, cfg_3]) running_12)) = [cfg_3]
   \<and> collectors (fst (syncConfigs (Inr [cfg_2, cfg_3]) running_12)) 1 = None
   \<and> collectors (fst (syncConfigs (Inr [cfg_2, cfg_3]) running_12)) 2 = Some \<lparr>cfg = cfg_2\<rparr>
   \<and> collectors (fst (syncConfigs (Inr [cfg_2, cfg_3]) running_12)) 3 = Some \<lparr>cfg = cfg_3\<rparr>
   \<and> syncConfigs (Inr [cfg_2, cfg_3]) (fst (syncConfigs (Inr [cfg_2, cfg_3]) running_12)) =
         (fst (syncConfigs (Inr [cfg_2, cfg_3]) running_12),
          \<lparr>stopped = (\<lambda>k. False), started = []\<rparr>)"
  using reconciliation [of "[cfg_2, cfg_3]" running_12 2 cfg_3]
  by (simp add: running_12_def Start_def NewCollector_def syncConfigs_def Let_def
      cfg_1_def cfg_2_def cfg_3_def)

subsection \<open>Stop\<close>

text \<open>
  C10. A collector that was never started is not running; \<open>Stop\<close> on a collector
  that is not running returns at its guard and leaves the collector as it is; after
  any \<open>Stop\<close> the collector is not running, so a second \<open>Stop\<close> returns at the
  guard as well.
\<close>

theorem stop_idempotent:
  "\<not> IsRunning (NewCollector interval start finish)
   \<and> (\<not> IsRunning c \<longrightarrow> Stop c = (c, None))
   \<and> \<not> IsRunning (fst (Stop c))
   \<and> Stop (fst (Stop c)) = (fst (Stop c), None)"
  by (auto simp: IsRunning_def NewCollector_def Stop_def split: option.splits)

theorem stop_idempotent_witness:
  "IsRunning running_12
   \<and> fst (Stop running_12) = NewCollector 5000 0 0
   \<and> \<not> IsRunning (fst (Stop running_12))
   \<and> Stop (fst (Stop running_12)) = (NewCollector 5000 0 0, None)
   \<and> Stop (NewCollector 5000 0 0) = (NewCollector 5000 0 0, None)"
  using stop_idempotent [of 5000 0 0 running_12]
    stop_idempotent [of 5000 0 0 "NewCollector 5000 0 0"]
  by (simp add: running_12_def Start_def NewCollector_def syncConfigs_def Let_def
      Stop_def IsRunning_def)

subsection \<open>Snapshot errors\<close>

text \<open>
  C8. When \<open>GetRouteArrivalList\<close> returns an error, the cycle returns the
  tracking map it was given and makes no \<open>Create\<close> call: no entry is made, changed,
  recorded or deleted, and the cleanup loops do not run. The worker does not return: it
  goes on with the events that follow, from the unchanged map.
\<close>

theorem snapshot_error_skips_tick:
  assumes "GetRouteArrivalList env = Inl err"
  shows "collectData config env busStates = (busStates, Map.empty)
     \<and> collectForConfig c cc (TickerC hour env # events) busStates =
         (if isWithinTimeWindow c hour then
            (fst (collectForConfig c cc events busStates),
             fst (snd (collectForConfig c cc events busStates)),
             Map.empty # snd (snd (collectForConfig c cc events busStates)))
          else collectForConfig c cc events busStates)"
  using assms by (simp add: collectData_error Let_def)

theorem snapshot_error_skips_tick_witness:
  "collectData cfg_1 (fetch_fails 7200) tracking_A1 = (tracking_A1, Map.empty)
   \<and> fst (collectForConfig (NewCollector 5000 0 0) \<lparr>cfg = cfg_1\<rparr>
        [TickerC 9 (fetch_fails 7200)] tracking_A1) = Waiting
   \<and> fst (snd (collectForConfig (NewCollector 5000 0 0) \<lparr>cfg = cfg_1\<rparr>
        [TickerC 9 (fetch_fails 7200), TickerC 9 (gone_at 90 [loc_A1_seats4])] tracking_A1)) ''A1'' =
       Some (approaching_A1\<lparr>PassedAt := clock 90, Recorded := True\<rparr>)
   \<and> fst (snd (collectForConfig (NewCollector 5000 0 0) \<lparr>cfg = cfg_1\<rparr>
        [TickerC 9 (gone_at 90 [loc_A1_seats4])] tracking_A1)) ''A1'' =
       Some (approaching_A1\<lparr>PassedAt := clock 90, Recorded := True\<rparr>)"
  using snapshot_error_skips_tick [of "fetch_fails 7200" "Error ''API returned status 500''"
      cfg_1 tracking_A1 "NewCollector 5000 0 0" "\<lparr>cfg = cfg_1\<rparr>" 9 "[]"]
    snapshot_error_skips_tick [of "fetch_fails 7200" "Error ''API returned status 500''"
      cfg_1 tracking_A1 "NewCollector 5000 0 0" "\<lparr>cfg = cfg_1\<rparr>" 9
      "[TickerC 9 (gone_at 90 [loc_A1_seats4])]"]
  by (simp add: tracking_A1_def approaching_A1_def gone_at_def fetch_fails_def clock_def
      loc_A1_seats4_def cfg_1_def collectData_def checkPassed_def cleanupOld_def
      recordPassage_def getSeatsAfterFromBusLocation_def Let_def IsZero_def Sub_def
      minDuration_def maxDuration_def Hour_def Minute_def Second_def
      isWithinTimeWindow_def NewCollector_def)

subsection \<open>Confirmation success\<close>

lemma absentFrom_Inr:
  "absentFrom p env \<Longrightarrow>
     \<exists>as. GetRouteArrivalList env = Inr as \<and> (p = [] \<or> p \<notin> BusArrivalInfo.PlateNo ` set as)"
  by (auto simp: absentFrom_def split: sum.splits)

lemma entryCreates_after_success:
  assumes "busStates p = Some state"
    and "snd (collectData config env busStates) p = Some (r, None)"
  shows "entryCreates config p (env # envs) busStates = [(r, None)]"
proof -
  have rest: "entryCreates config p envs (fst (collectData config env busStates)) = []"
  proof (cases "fst (collectData config env busStates) p")
    case None
    then show ?thesis by (cases envs) simp_all
  next
    case (Some state')
    from collectData_flag [of busStates p state config env state'] assms Some
    have "Recorded state'" by simp
    from entryCreates_recorded [of "fst (collectData config env busStates)" p state', OF Some this]
    show ?thesis .
  qed
  with assms show ?thesis by simp
qed

text \<open>
  C4. In a cycle whose snapshot does not list a tracked, unrecorded plate and whose
  confirmation lookup returns the seat count \<open>seats\<close>, exactly one \<open>Create\<close> call
  is made for the plate, in that cycle, whatever time has passed since the passage: its
  record carries \<open>seats\<close> as seats-after, the entry's \<open>LastSeenAt\<close> as arrival time
  and its \<open>SeatsBefore\<close>. The entry is recorded when the call returns without error,
  and then no other \<open>Create\<close> call is ever made for the entry.
\<close>

theorem confirmation_finalizes:
  assumes "busStates p = Some state" and "\<not> Recorded state"
    and "absentFrom p env"
    and "getSeatsAfterFromBusLocation (GetBusLocations env p) p = Some seats"
    and "r = \<lparr>RouteConfigID = ID config, BusNumber = p, ArrivalTime = LastSeenAt state,
              SeatsBefore = Some (SeatsBefore state), SeatsAfter = Some seats\<rparr>"
  shows "snd (collectData config env busStates) p = Some (r, Create env r)
     \<and> fst (collectData config env busStates) p =
         (if 10 * Minute < timeNow env - LastSeenAt state
             \<or> 1 * Hour < timeNow env - FirstSeenAt state
          then None
          else Some (state\<lparr>PassedAt := (if PassedAt state = 0 then timeNow env else PassedAt state),
                          Recorded := (Create env r = None)\<rparr>))
     \<and> (Create env r = None \<longrightarrow> entryCreates config p (env # envs) busStates = [(r, None)])
     \<and> 0 \<le> seats"
proof -
  from absentFrom_Inr [OF assms(3)] obtain as where
    as: "GetRouteArrivalList env = Inr as" "p = [] \<or> p \<notin> BusArrivalInfo.PlateNo ` set as"
    by blast
  have rp: "recordPassage config env p state =
      (state\<lparr>PassedAt := (if PassedAt state = 0 then timeNow env else PassedAt state),
             Recorded := (Create env r = None)\<rparr>, Some (r, Create env r))"
    by (rule recordPassage_confirmed [OF assms(2) assms(4) refl assms(5)])
  have call: "snd (collectData config env busStates) p = Some (r, Create env r)"
    using collectData_absent(2) [OF as, of config busStates] assms(1) rp by simp
  have after: "fst (collectData config env busStates) p =
         (if 10 * Minute < timeNow env - LastSeenAt state
             \<or> 1 * Hour < timeNow env - FirstSeenAt state
          then None
          else Some (state\<lparr>PassedAt := (if PassedAt state = 0 then timeNow env else PassedAt state),
                          Recorded := (Create env r = None)\<rparr>))"
    using collectData_absent(1) [OF as, of config busStates] assms(1) rp by simp
  have once: "Create env r = None \<longrightarrow> entryCreates config p (env # envs) busStates = [(r, None)]"
    using entryCreates_after_success [of busStates p state config env r envs] assms(1) call
    by simp
  have valid: "0 \<le> seats"
    using assms(4) scanLocations_Some [of _ p seats]
    by (cases "GetBusLocations env p") (auto simp: getSeatsAfterFromBusLocation_def)
  show ?thesis
    by (intro conjI) (rule call after once valid)+
qed

theorem confirmation_finalizes_witness:
  "tracking_A1 ''A1'' = Some approaching_A1 \<and> \<not> Recorded approaching_A1
   \<and> absentFrom ''A1'' (gone_at 90 [loc_A1_seats4])
   \<and> getSeatsAfterFromBusLocation (GetBusLocations (gone_at 90 [loc_A1_seats4]) ''A1'') ''A1'' = Some 4
   \<and> snd (collectData cfg_1 (gone_at 90 [loc_A1_seats4]) tracking_A1) ''A1'' =
       Some (arrival_A1 (Some 4), None)
   \<and> fst (collectData cfg_1 (gone_at 90 [loc_A1_seats4]) tracking_A1) ''A1'' =
       Some (approaching_A1\<lparr>PassedAt := clock 90, Recorded := True\<rparr>)
   \<and> entryCreates cfg_1 ''A1''
       [gone_at 90 [loc_A1_seats4], gone_at 120 [loc_A1_seats4], gone_at 150 []] tracking_A1 =
       [(arrival_A1 (Some 4), None)]"
  using confirmation_finalizes [of tracking_A1 "''A1''" approaching_A1 "gone_at 90 [loc_A1_seats4]"
      4 "arrival_A1 (Some 4)" cfg_1 "[gone_at 120 [loc_A1_seats4], gone_at 150 []]"]
  by (simp add: tracking_A1_def approaching_A1_def gone_at_def arrival_A1_def clock_def
      loc_A1_seats4_def cfg_1_def collectData_def checkPassed_def cleanupOld_def
      recordPassage_def getSeatsAfterFromBusLocation_def Let_def IsZero_def Sub_def
      minDuration_def maxDuration_def Hour_def Minute_def Second_def absentFrom_def)

subsection \<open>Timeout\<close>








subsection \<open>Closer approach\<close>

lemma collectData_sighted:
  assumes "GetRouteArrivalList env = Inr arrivals" and "p \<noteq> []"
    and "filter (\<lambda>a. BusArrivalInfo.PlateNo a = p) arrivals = [a]"
  shows "fst (collectData config env busStates) p =
     (case busStates p of
        None \<Rightarrow>
          Some \<lparr>PlateNo = p, FirstSeenAt = timeNow env, LastSeenAt = timeNow env,
                SeatsBefore = BusArrivalInfo.RemainSeatCnt a, LocationNo = LocationNo1 a,
                Recorded = False, PendingArrivalID = 0, PassedAt = 0, RetryCount = 0\<rparr>
      | Some state \<Rightarrow>
          if 1 * Hour < timeNow env - FirstSeenAt state then None
          else Some (state\<lparr>LastSeenAt := timeNow env,
                  SeatsBefore := (if LocationNo1 a < LocationNo state
                                  then BusArrivalInfo.RemainSeatCnt a else SeatsBefore state),
                  LocationNo := (if LocationNo1 a < LocationNo state
                                 then LocationNo1 a else LocationNo state)\<rparr>))"
proof -
  from assms(3) have "a \<in> set (filter (\<lambda>a. BusArrivalInfo.PlateNo a = p) arrivals)" by simp
  then have pa: "BusArrivalInfo.PlateNo a = p" and mem: "p \<in> BusArrivalInfo.PlateNo ` set arrivals"
    by auto
  have tr: "fst (trackArrivals (timeNow env) arrivals (busStates, \<lambda>plateNo. False)) p =
      fst (trackArrival (timeNow env) a (busStates, \<lambda>plateNo. False)) p"
    by (rule trackArrivals_once [OF assms(3) assms(2)])
  have Hour_pos: "0 < Hour" by (simp add: Hour_def Minute_def Second_def)
  have tr2: "fst (trackArrivals (timeNow env) arrivals (busStates, \<lambda>plateNo. False)) p =
     (case busStates p of
        None \<Rightarrow>
          Some \<lparr>PlateNo = p, FirstSeenAt = timeNow env, LastSeenAt = timeNow env,
                SeatsBefore = BusArrivalInfo.RemainSeatCnt a, LocationNo = LocationNo1 a,
                Recorded = False, PendingArrivalID = 0, PassedAt = 0, RetryCount = 0\<rparr>
      | Some state \<Rightarrow>
          Some (state\<lparr>LastSeenAt := timeNow env,
                  SeatsBefore := (if LocationNo1 a < LocationNo state
                                  then BusArrivalInfo.RemainSeatCnt a else SeatsBefore state),
                  LocationNo := (if LocationNo1 a < LocationNo state
                                 then LocationNo1 a else LocationNo state)\<rparr>))"
    unfolding tr trackArrival_same [OF pa assms(2)] using pa by (simp split: option.splits)
  show ?thesis
    unfolding collectData_present(1) [OF assms(1) assms(2) mem] tr2
    using Hour_pos by (cases "busStates p") simp_all
qed

text \<open>
  C5. A cycle whose snapshot lists a tracked plate once sets \<open>LastSeenAt\<close> to the
  time of the cycle, and overwrites \<open>SeatsBefore\<close> and \<open>LocationNo\<close> with the
  reading exactly when its ordinal is strictly smaller than the stored one (the entry
  is deleted instead when it was first seen more than one hour ago). A plate seen at the
  ordinals 5, 3, 4, 2 in four cycles within one hour holds the seats read at ordinal 3
  after the third cycle and the seats read at ordinal 2 after the fourth.
\<close>

theorem closer_approach:
  "(busStates p = Some state \<and> p \<noteq> [] \<and> GetRouteArrivalList env = Inr arrivals
      \<and> filter (\<lambda>a. BusArrivalInfo.PlateNo a = p) arrivals = [a] \<longrightarrow>
      fst (collectData config env busStates) p =
        (if 1 * Hour < timeNow env - FirstSeenAt state then None
         else Some (state\<lparr>LastSeenAt := timeNow env,
                 SeatsBefore := (if LocationNo1 a < LocationNo state
                                 then BusArrivalInfo.RemainSeatCnt a else SeatsBefore state),
                 LocationNo := (if LocationNo1 a < LocationNo state
                                then LocationNo1 a else LocationNo state)\<rparr>)))
   \<and> (untracked p = None \<and> p \<noteq> []
      \<and> GetRouteArrivalList e1 =
          Inr [\<lparr>BusArrivalInfo.PlateNo = p, RemainSeatCnt = s1, LocationNo1 = 5\<rparr>]
      \<and> GetRouteArrivalList e2 =
          Inr [\<lparr>BusArrivalInfo.PlateNo = p, RemainSeatCnt = s2, LocationNo1 = 3\<rparr>]
      \<and> GetRouteArrivalList e3 =
          Inr [\<lparr>BusArrivalInfo.PlateNo = p, RemainSeatCnt = s3, LocationNo1 = 4\<rparr>]
      \<and> GetRouteArrivalList e4 =
          Inr [\<lparr>BusArrivalInfo.PlateNo = p, RemainSeatCnt = s4, LocationNo1 = 2\<rparr>]
      \<and> timeNow e2 - timeNow e1 \<le> 1 * Hour \<and> timeNow e3 - timeNow e1 \<le> 1 * Hour
      \<and> timeNow e4 - timeNow e1 \<le> 1 * Hour \<longrightarrow>
      cycles config [e1, e2, e3] untracked p =
        Some \<lparr>PlateNo = p, FirstSeenAt = timeNow e1, LastSeenAt = timeNow e3,
              SeatsBefore = s2, LocationNo = 3, Recorded = False, PendingArrivalID = 0,
              PassedAt = 0, RetryCount = 0\<rparr>
      \<and> cycles config [e1, e2, e3, e4] untracked p =
        Some \<lparr>PlateNo = p, FirstSeenAt = timeNow e1, LastSeenAt = timeNow e4,
              SeatsBefore = s4, LocationNo = 2, Recorded = False, PendingArrivalID = 0,
              PassedAt = 0, RetryCount = 0\<rparr>)"
proof (intro conjI impI)
  assume "busStates p = Some state \<and> p \<noteq> [] \<and> GetRouteArrivalList env = Inr arrivals
      \<and> filter (\<lambda>a. BusArrivalInfo.PlateNo a = p) arrivals = [a]"
  then show "fst (collectData config env busStates) p =
        (if 1 * Hour < timeNow env - FirstSeenAt state then None
         else Some (state\<lparr>LastSeenAt := timeNow env,
                 SeatsBefore := (if LocationNo1 a < LocationNo state
                                 then BusArrivalInfo.RemainSeatCnt a else SeatsBefore state),
                 LocationNo := (if LocationNo1 a < LocationNo state
                                then LocationNo1 a else LocationNo state)\<rparr>))"
    using collectData_sighted [of env arrivals p a config busStates] by simp
next
  assume h: "untracked p = None \<and> p \<noteq> []
      \<and> GetRouteArrivalList e1 =
          Inr [\<lparr>BusArrivalInfo.PlateNo = p, RemainSeatCnt = s1, LocationNo1 = 5\<rparr>]
      \<and> GetRouteArrivalList e2 =
          Inr [\<lparr>BusArrivalInfo.PlateNo = p, RemainSeatCnt = s2, LocationNo1 = 3\<rparr>]
      \<and> GetRouteArrivalList e3 =
          Inr [\<lparr>BusArrivalInfo.PlateNo = p, RemainSeatCnt = s3, LocationNo1 = 4\<rparr>]
      \<and> GetRouteArrivalList e4 =
          Inr [\<lparr>BusArrivalInfo.PlateNo = p, RemainSeatCnt = s4, LocationNo1 = 2\<rparr>]
      \<and> timeNow e2 - timeNow e1 \<le> 1 * Hour \<and> timeNow e3 - timeNow e1 \<le> 1 * Hour
      \<and> timeNow e4 - timeNow e1 \<le> 1 * Hour"
  let ?b1 = "fst (collectData config e1 untracked)"
  let ?b2 = "fst (collectData config e2 ?b1)"
  let ?b3 = "fst (collectData config e3 ?b2)"
  let ?b4 = "fst (collectData config e4 ?b3)"
  from h have p: "p \<noteq> []" by simp
  have c1: "?b1 p = Some \<lparr>PlateNo = p, FirstSeenAt = timeNow e1, LastSeenAt = timeNow e1,
              SeatsBefore = s1, LocationNo = 5, Recorded = False, PendingArrivalID = 0,
              PassedAt = 0, RetryCount = 0\<rparr>"
    using h collectData_sighted [of e1 _ p _ config untracked] by simp
  have c2: "?b2 p = Some \<lparr>PlateNo = p, FirstSeenAt = timeNow e1, LastSeenAt = timeNow e2,
              SeatsBefore = s2, LocationNo = 3, Recorded = False, PendingArrivalID = 0,
              PassedAt = 0, RetryCount = 0\<rparr>"
    using h c1 collectData_sighted [of e2 _ p _ config ?b1] by simp
  have c3: "?b3 p = Some \<lparr>PlateNo = p, FirstSeenAt = timeNow e1, LastSeenAt = timeNow e3,
              SeatsBefore = s2, LocationNo = 3, Recorded = False, PendingArrivalID = 0,
              PassedAt = 0, RetryCount = 0\<rparr>"
    using h c2 collectData_sighted [of e3 _ p _ config ?b2] by simp
  have c4: "?b4 p = Some \<lparr>PlateNo = p, FirstSeenAt = timeNow e1, LastSeenAt = timeNow e4,
              SeatsBefore = s4, LocationNo = 2, Recorded = False, PendingArrivalID = 0,
              PassedAt = 0, RetryCount = 0\<rparr>"
    using h c3 collectData_sighted [of e4 _ p _ config ?b3] by simp
  show "cycles config [e1, e2, e3] untracked p =
        Some \<lparr>PlateNo = p, FirstSeenAt = timeNow e1, LastSeenAt = timeNow e3,
              SeatsBefore = s2, LocationNo = 3, Recorded = False, PendingArrivalID = 0,
              PassedAt = 0, RetryCount = 0\<rparr>"
    using c3 by simp
  show "cycles config [e1, e2, e3, e4] untracked p =
        Some \<lparr>PlateNo = p, FirstSeenAt = timeNow e1, LastSeenAt = timeNow e4,
              SeatsBefore = s4, LocationNo = 2, Recorded = False, PendingArrivalID = 0,
              PassedAt = 0, RetryCount = 0\<rparr>"
    using c4 by simp
qed

theorem closer_approach_witness:
  "fst (collectData cfg_1 (seen_at 90 [sighting ''B2'' 2 30, sighting ''A1'' 0 5]) tracking_A1) ''A1'' =
     Some (approaching_A1\<lparr>LastSeenAt := clock 90, SeatsBefore := 5, LocationNo := 0\<rparr>)
   \<and> fst (collectData cfg_1 (seen_at 90 [sighting ''A1'' 1 5]) tracking_A1) ''A1'' =
     Some (approaching_A1\<lparr>LastSeenAt := clock 90\<rparr>)
   \<and> fst (collectData cfg_1 (seen_at 90 [sighting ''A1'' 2 9]) tracking_A1) ''A1'' =
     Some (approaching_A1\<lparr>LastSeenAt := clock 90\<rparr>)
   \<and> cycles cfg_1 [seen_at 0 [sighting ''A1'' 5 20], seen_at 30 [sighting ''A1'' 3 17],
        seen_at 60 [sighting ''A1'' 4 15]] Map.empty ''A1'' =
     Some \<lparr>PlateNo = ''A1'', FirstSeenAt = clock 0, LastSeenAt = clock 60,
           SeatsBefore = 17, LocationNo = 3, Recorded = False, PendingArrivalID = 0,
           PassedAt = 0, RetryCount = 0\<rparr>
   \<and> cycles cfg_1 [seen_at 0 [sighting ''A1'' 5 20], seen_at 30 [sighting ''A1'' 3 17],
        seen_at 60 [sighting ''A1'' 4 15], seen_at 90 [sighting ''A1'' 2 11]] Map.empty ''A1'' =
     Some \<lparr>PlateNo = ''A1'', FirstSeenAt = clock 0, LastSeenAt = clock 90,
           SeatsBefore = 11, LocationNo = 2, Recorded = False, PendingArrivalID = 0,
           PassedAt = 0, RetryCount = 0\<rparr>"
  using closer_approach [where busStates = tracking_A1 and p = "''A1''" and state = approaching_A1
      and env = "seen_at 90 [sighting ''B2'' 2 30, sighting ''A1'' 0 5]"
      and arrivals = "[sighting ''B2'' 2 30, sighting ''A1'' 0 5]" and a = "sighting ''A1'' 0 5"
      and config = cfg_1 and untracked = Map.empty
      and ?e1.0 = "seen_at 0 [sighting ''A1'' 5 20]" and ?e2.0 = "seen_at 30 [sighting ''A1'' 3 17]"
      and ?e3.0 = "seen_at 60 [sighting ''A1'' 4 15]" and ?e4.0 = "seen_at 90 [sighting ''A1'' 2 11]"
      and ?s1.0 = 20 and ?s2.0 = 17 and ?s3.0 = 15 and ?s4.0 = 11]
    closer_approach [where busStates = tracking_A1 and p = "''A1''" and state = approaching_A1
      and env = "seen_at 90 [sighting ''A1'' 1 5]"
      and arrivals = "[sighting ''A1'' 1 5]" and a = "sighting ''A1'' 1 5"
      and config = cfg_1 and untracked = Map.empty
      and ?e1.0 = "seen_at 0 [sighting ''A1'' 5 20]" and ?e2.0 = "seen_at 30 [sighting ''A1'' 3 17]"
      and ?e3.0 = "seen_at 60 [sighting ''A1'' 4 15]" and ?e4.0 = "seen_at 90 [sighting ''A1'' 2 11]"
      and ?s1.0 = 20 and ?s2.0 = 17 and ?s3.0 = 15 and ?s4.0 = 11]
    closer_approach [where busStates = tracking_A1 and p = "''A1''" and state = approaching_A1
      and env = "seen_at 90 [sighting ''A1'' 2 9]"
      and arrivals = "[sighting ''A1'' 2 9]" and a = "sighting ''A1'' 2 9"
      and config = cfg_1 and untracked = Map.empty
      and ?e1.0 = "seen_at 0 [sighting ''A1'' 5 20]" and ?e2.0 = "seen_at 30 [sighting ''A1'' 3 17]"
      and ?e3.0 = "seen_at 60 [sighting ''A1'' 4 15]" and ?e4.0 = "seen_at 90 [sighting ''A1'' 2 11]"
      and ?s1.0 = 20 and ?s2.0 = 17 and ?s3.0 = 15 and ?s4.0 = 11]
  by (simp add: tracking_A1_def approaching_A1_def seen_at_def sighting_def clock_def cfg_1_def Hour_def Minute_def Second_def)


end
